theory Spec2Isabelle
  imports Main "HOL-Library.Sublist"
begin

section \<open>Values of the validator\<close>

text \<open>
  The embedding follows \<^verbatim>\<open>tools/validate_data.py\<close>. A Python \<^verbatim>\<open>str\<close> is a
  \<^typ>\<open>string\<close>; the three symbols that open a diagnostic are kept as their UTF-8 bytes.
  Paths are POSIX paths: \<^verbatim>\<open>os.path.sep\<close> is the slash.
\<close>

text \<open>A Python float; the validator never looks inside one.\<close>

typedecl pyfloat

text \<open>
  What \<^verbatim>\<open>json.load\<close> returns. \<open>JNull\<close> is Python's \<^verbatim>\<open>None\<close>, and a
  \<open>JObject\<close> holds the items of the \<^verbatim>\<open>dict\<close> in insertion order.
\<close>

datatype json =
    JNull
  | JBool bool
  | JInt int
  | JFloat pyfloat
  | JString string
  | JArray "json list"
  | JObject "(string \<times> json) list"

text \<open>The one exception the checks themselves can raise.\<close>

datatype exn = TypeError

definition isinstance_dict :: "json \<Rightarrow> bool" where
  "isinstance_dict v = (case v of JObject kvs \<Rightarrow> True | _ \<Rightarrow> False)"

definition isinstance_list :: "json \<Rightarrow> bool" where
  "isinstance_list v = (case v of JArray xs \<Rightarrow> True | _ \<Rightarrow> False)"

text \<open>\<^verbatim>\<open>k in obj\<close> and \<^verbatim>\<open>obj.get(k)\<close> on a \<^verbatim>\<open>dict\<close>.\<close>

definition dict_contains :: "(string \<times> json) list \<Rightarrow> string \<Rightarrow> bool" where
  "dict_contains kvs k = (k \<in> set (map fst kvs))"

definition dict_get :: "(string \<times> json) list \<Rightarrow> string \<Rightarrow> json" where
  "dict_get kvs k = (case map_of kvs k of None \<Rightarrow> JNull | Some v \<Rightarrow> v)"

text \<open>
  The operator \<^verbatim>\<open>r in data\<close> for a string \<^verbatim>\<open>r\<close>: key membership on a
  \<^verbatim>\<open>dict\<close>, element membership on a \<^verbatim>\<open>list\<close>, substring containment on a
  \<^verbatim>\<open>str\<close>, and \<^verbatim>\<open>TypeError\<close> on a number, a boolean and \<^verbatim>\<open>None\<close>.
\<close>

fun py_in :: "string \<Rightarrow> json \<Rightarrow> exn + bool" where
  "py_in r (JObject kvs) = Inr (dict_contains kvs r)"
| "py_in r (JArray xs) = Inr (JString r \<in> set xs)"
| "py_in r (JString s) = Inr (sublist r s)"
| "py_in r JNull = Inl TypeError"
| "py_in r (JBool b) = Inl TypeError"
| "py_in r (JInt i) = Inl TypeError"
| "py_in r (JFloat x) = Inl TypeError"

subsection \<open>Rendering values into messages\<close>

definition digit_char :: "nat \<Rightarrow> char" where
  "digit_char d = ''0123456789'' ! d"

fun str_nat :: "nat \<Rightarrow> string" where
  "str_nat n = (if n < 10 then [digit_char n] else str_nat (n div 10) @ [digit_char (n mod 10)])"

definition str_int :: "int \<Rightarrow> string" where
  "str_int i = (if i < 0 then CHR ''-'' # str_nat (nat (- i)) else str_nat (nat i))"

text \<open>
  \<^verbatim>\<open>str(v)\<close>. For a float, a list and a dict it is \<^verbatim>\<open>repr(v)\<close>, which is taken as
  the parameter \<open>repr\<close>.
\<close>

definition py_str :: "(json \<Rightarrow> string) \<Rightarrow> json \<Rightarrow> string" where
  "py_str repr v =
     (case v of
        JString s \<Rightarrow> s
      | JInt i \<Rightarrow> str_int i
      | JBool b \<Rightarrow> (if b then ''True'' else ''False'')
      | JNull \<Rightarrow> ''None''
      | _ \<Rightarrow> repr v)"

definition cross_mark :: string where
  "cross_mark = [CHR 0xE2, CHR 0x9D, CHR 0x8C]"

definition warning_sign :: string where
  "warning_sign = [CHR 0xE2, CHR 0x9A, CHR 0xA0, CHR 0xEF, CHR 0xB8, CHR 0x8F]"

definition fire :: string where
  "fire = [CHR 0xF0, CHR 0x9F, CHR 0x94, CHR 0xA5]"

definition quoted :: "string \<Rightarrow> string" where
  "quoted s = [CHR 0x27] @ s @ [CHR 0x27]"

definition indexed :: "string \<Rightarrow> nat \<Rightarrow> string" where
  "indexed path i = path @ ''['' @ str_nat i @ '']''"

section \<open>Path helpers of \<^verbatim>\<open>os.path\<close>\<close>

definition basename :: "string \<Rightarrow> string" where
  "basename p = rev (takeWhile (\<lambda>c. c \<noteq> CHR ''/'') (rev p))"

definition dirname :: "string \<Rightarrow> string" where
  "dirname p =
     (let head = rev (dropWhile (\<lambda>c. c \<noteq> CHR ''/'') (rev p))
      in if head \<noteq> [] \<and> \<not> list_all (\<lambda>c. c = CHR ''/'') head
         then rev (dropWhile (\<lambda>c. c = CHR ''/'') (rev head))
         else head)"

definition os_path_join :: "string \<Rightarrow> string \<Rightarrow> string" where
  "os_path_join a b =
     (if prefix ''/'' b then b
      else if a = [] \<or> suffix ''/'' a then a @ b
      else a @ ''/'' @ b)"

text \<open>
  \<^verbatim>\<open>path.split('/')\<close>, read from the left with the component \<open>cur\<close> collected so
  far, and \<^verbatim>\<open>'/'.join(comps)\<close>.
\<close>

fun split_from :: "string \<Rightarrow> string \<Rightarrow> string list" where
  "split_from cur [] = [cur]"
| "split_from cur (c # cs) =
     (if c = CHR ''/'' then cur # split_from [] cs else split_from (cur @ [c]) cs)"

definition split_sep :: "string \<Rightarrow> string list" where
  "split_sep s = split_from [] s"

fun join_sep :: "string list \<Rightarrow> string" where
  "join_sep [] = []"
| "join_sep [c] = c"
| "join_sep (c # d # cs) = c @ ''/'' @ join_sep (d # cs)"

text \<open>The component loop of \<^verbatim>\<open>posixpath.normpath\<close>; \<open>slashes\<close> is \<^verbatim>\<open>initial_slashes\<close>.\<close>

fun norm_comps :: "nat \<Rightarrow> string list \<Rightarrow> string list \<Rightarrow> string list" where
  "norm_comps slashes [] new_comps = new_comps"
| "norm_comps slashes (seg # comps) new_comps =
     (if seg = [] \<or> seg = ''.'' then norm_comps slashes comps new_comps
      else if seg \<noteq> ''..'' \<or> (slashes = 0 \<and> new_comps = [])
              \<or> (new_comps \<noteq> [] \<and> last new_comps = ''..'')
      then norm_comps slashes comps (new_comps @ [seg])
      else if new_comps \<noteq> [] then norm_comps slashes comps (butlast new_comps)
      else norm_comps slashes comps new_comps)"

definition normpath :: "string \<Rightarrow> string" where
  "normpath path =
     (if path = [] then ''.''
      else
        let slashes = (if prefix ''/'' path
                   then (if prefix ''//'' path \<and> \<not> prefix ''///'' path then 2 else 1)
                   else (0::nat));
            joined = join_sep (norm_comps slashes (split_sep path) []);
            res = (if slashes \<noteq> 0 then replicate slashes (CHR ''/'') @ joined else joined)
        in if res = [] then ''.'' else res)"

section \<open>The helpers of the script\<close>

definition is_publication_manifest :: "string \<Rightarrow> bool" where
  "is_publication_manifest path =
     (basename path = ''manifest.json'' \<and> sublist ''/publications/'' path)"

definition is_dialogues :: "string \<Rightarrow> bool" where
  "is_dialogues path = (basename path = ''dialogues.json'' \<and> sublist ''/segments/'' path)"

definition is_recent :: "string \<Rightarrow> bool" where
  "is_recent path = suffix (os_path_join ''publications'' ''recent.json'') (normpath path)"

text \<open>
  The loop shared by \<^verbatim>\<open>get_identifier_from\<close> and \<^verbatim>\<open>get_author_from\<close>: the value
  of the first key of \<open>ks\<close> that \<open>obj\<close> holds, \<^verbatim>\<open>None\<close> when \<open>obj\<close> is no dict or holds
  none of them.
\<close>

fun first_key_value :: "string list \<Rightarrow> json \<Rightarrow> json" where
  "first_key_value [] obj = JNull"
| "first_key_value (k # ks) obj =
     (case obj of
        JObject kvs \<Rightarrow> (if dict_contains kvs k then dict_get kvs k else first_key_value ks obj)
      | _ \<Rightarrow> first_key_value ks obj)"

definition identifier_keys :: "string list" where
  "identifier_keys = [''identifier'', ''id'', ''publication_identifier'']"

definition author_keys :: "string list" where
  "author_keys = [''author'', ''author_name'', ''author_names'']"

definition get_identifier_from :: "json \<Rightarrow> json" where
  "get_identifier_from obj = first_key_value identifier_keys obj"

definition get_author_from :: "json \<Rightarrow> json" where
  "get_author_from obj = first_key_value author_keys obj"

section \<open>The diagnostics\<close>

text \<open>One definition for each f-string the script appends to \<^verbatim>\<open>errors\<close>.\<close>

definition msg_parse_error :: "string \<Rightarrow> string \<Rightarrow> string" where
  "msg_parse_error path e = fire @ '' '' @ path @ '': JSON parse error: '' @ e"

definition msg_missing_manifest_field :: "string \<Rightarrow> string \<Rightarrow> string" where
  "msg_missing_manifest_field path r =
     cross_mark @ '' '' @ path @ '': Missing required manifest field '' @ quoted r"

definition msg_parent_mismatch :: "string \<Rightarrow> string \<Rightarrow> string \<Rightarrow> string" where
  "msg_parent_mismatch path parent_dir identifier =
     warning_sign @ '' '' @ path @ '': Parent dir '' @ quoted parent_dir
       @ '' != identifier '' @ quoted identifier"

definition msg_manifest_no_identifier :: "string \<Rightarrow> string" where
  "msg_manifest_no_identifier path =
     cross_mark @ '' '' @ path @ '': manifest missing identifier field''"

definition msg_dialogues_not_array :: "string \<Rightarrow> string" where
  "msg_dialogues_not_array path =
     cross_mark @ '' '' @ path @ '': dialogues file should be a JSON array''"

definition msg_dialogue_not_object :: "string \<Rightarrow> nat \<Rightarrow> string" where
  "msg_dialogue_not_object path i =
     cross_mark @ '' '' @ indexed path i @ '': dialogue entry not an object''"

definition msg_missing_dialogue_field :: "string \<Rightarrow> nat \<Rightarrow> string \<Rightarrow> string" where
  "msg_missing_dialogue_field path i rf =
     cross_mark @ '' '' @ indexed path i @ '': Missing required dialogue field '' @ quoted rf"

definition msg_recent_not_array :: "string \<Rightarrow> string" where
  "msg_recent_not_array path =
     cross_mark @ '' '' @ path @ '': expected array of recent items''"

definition msg_recent_not_object :: "string \<Rightarrow> nat \<Rightarrow> string" where
  "msg_recent_not_object path i =
     cross_mark @ '' '' @ indexed path i @ '': recent entry not an object''"

definition msg_recent_no_identifier :: "string \<Rightarrow> nat \<Rightarrow> string" where
  "msg_recent_no_identifier path i =
     cross_mark @ '' '' @ indexed path i
       @ '': missing publication identifier (publication_identifier/identifier/id)''"

definition msg_recent_no_author :: "string \<Rightarrow> nat \<Rightarrow> string" where
  "msg_recent_no_author path i =
     cross_mark @ '' '' @ indexed path i @ '': missing author field (author_names/author)''"

definition msg_expected_identifier :: "string \<Rightarrow> string" where
  "msg_expected_identifier path =
     warning_sign @ '' '' @ path
       @ '': expected an identifier key (identifier/id/publication_identifier)''"

section \<open>The checks of each kind of file\<close>

text \<open>
  Every check takes the list \<^verbatim>\<open>errors\<close> and returns it with the new diagnostics
  appended, or \<open>Inl\<close> the exception that leaves the script.
\<close>

subsection \<open>Manifests\<close>

text \<open>The loop over \<^verbatim>\<open>required\<close>.\<close>

fun required_loop :: "string \<Rightarrow> json \<Rightarrow> string list \<Rightarrow> string list \<Rightarrow> exn + string list" where
  "required_loop path data [] errors = Inr errors"
| "required_loop path data (r # rs) errors =
     (case py_in r data of
        Inl e \<Rightarrow> Inl e
      | Inr present \<Rightarrow>
          required_loop path data rs
            (if \<not> present then errors @ [msg_missing_manifest_field path r] else errors))"

definition parent_check :: "(json \<Rightarrow> string) \<Rightarrow> string \<Rightarrow> json \<Rightarrow> string list \<Rightarrow> string list" where
  "parent_check repr path data errors =
     (let parent_dir = basename (dirname path);
          identifier = get_identifier_from data
      in if identifier \<noteq> JNull \<and> parent_dir \<noteq> py_str repr identifier
         then errors @ [msg_parent_mismatch path parent_dir (py_str repr identifier)]
         else if identifier = JNull then errors @ [msg_manifest_no_identifier path]
         else errors)"

definition validate_manifest :: "(json \<Rightarrow> string) \<Rightarrow> string \<Rightarrow> json \<Rightarrow> string list \<Rightarrow> exn + string list" where
  "validate_manifest repr path data errors =
     (case required_loop path data [''identifier'', ''title''] errors of
        Inl e \<Rightarrow> Inl e
      | Inr errors' \<Rightarrow> Inr (parent_check repr path data errors'))"

subsection \<open>Dialogues\<close>

text \<open>The loop over the three required fields of one entry, a dict.\<close>

fun dialogue_fields_loop :: "string \<Rightarrow> nat \<Rightarrow> (string \<times> json) list \<Rightarrow> string list \<Rightarrow> string list \<Rightarrow> string list" where
  "dialogue_fields_loop path i item [] errors = errors"
| "dialogue_fields_loop path i item (rf # rfs) errors =
     dialogue_fields_loop path i item rfs
       (if \<not> dict_contains item rf then errors @ [msg_missing_dialogue_field path i rf]
        else errors)"

definition dialogue_fields :: "string list" where
  "dialogue_fields = [''character_identifier'', ''ordinal'', ''text'']"

text \<open>The loop over \<^verbatim>\<open>enumerate(data)\<close>; \<open>i\<close> is the index of the head of the list.\<close>

fun dialogues_loop :: "string \<Rightarrow> nat \<Rightarrow> json list \<Rightarrow> string list \<Rightarrow> string list" where
  "dialogues_loop path i [] errors = errors"
| "dialogues_loop path i (item # items) errors =
     (case item of
        JObject kvs \<Rightarrow>
          dialogues_loop path (Suc i) items (dialogue_fields_loop path i kvs dialogue_fields errors)
      | _ \<Rightarrow> dialogues_loop path (Suc i) items (errors @ [msg_dialogue_not_object path i]))"

definition validate_dialogues :: "string \<Rightarrow> json \<Rightarrow> string list \<Rightarrow> string list" where
  "validate_dialogues path data errors =
     (case data of
        JArray items \<Rightarrow> dialogues_loop path 0 items errors
      | _ \<Rightarrow> errors @ [msg_dialogues_not_array path])"

subsection \<open>The list of recent publications\<close>

definition recent_item :: "string \<Rightarrow> nat \<Rightarrow> json \<Rightarrow> string list \<Rightarrow> string list" where
  "recent_item path i item errors =
     (let errors1 = (if get_identifier_from item = JNull
                     then errors @ [msg_recent_no_identifier path i] else errors)
      in if get_author_from item = JNull then errors1 @ [msg_recent_no_author path i]
         else errors1)"

fun recent_loop :: "string \<Rightarrow> nat \<Rightarrow> json list \<Rightarrow> string list \<Rightarrow> string list" where
  "recent_loop path i [] errors = errors"
| "recent_loop path i (item # items) errors =
     (if \<not> isinstance_dict item
      then recent_loop path (Suc i) items (errors @ [msg_recent_not_object path i])
      else recent_loop path (Suc i) items (recent_item path i item errors))"

definition validate_recent :: "string \<Rightarrow> json \<Rightarrow> string list \<Rightarrow> string list" where
  "validate_recent path data errors =
     (case data of
        JArray items \<Rightarrow> recent_loop path 0 items errors
      | _ \<Rightarrow> errors @ [msg_recent_not_array path])"

subsection \<open>Any other file under \<^verbatim>\<open>publications\<close>\<close>

definition validate_generic :: "string \<Rightarrow> json \<Rightarrow> string list \<Rightarrow> string list" where
  "validate_generic path data errors =
     (if isinstance_dict data \<and> get_identifier_from data = JNull
      then errors @ [msg_expected_identifier path]
      else errors)"

section \<open>One file\<close>

text \<open>The guards of the \<^verbatim>\<open>if\<close>/\<^verbatim>\<open>elif\<close> chain, in its order: the first that holds wins.\<close>

datatype classification =
  ManifestFile | DialoguesFile | RecentFile | GenericPublicationFile | Unclassified

definition classify :: "string \<Rightarrow> classification" where
  "classify path =
     (if is_publication_manifest path then ManifestFile
      else if is_dialogues path then DialoguesFile
      else if is_recent path then RecentFile
      else if sublist ''/publications/'' path then GenericPublicationFile
      else Unclassified)"

text \<open>
  What \<^verbatim>\<open>read_json\<close> gave: \<open>Inl\<close> the text of the exception it raised, \<open>Inr\<close> the
  document.
\<close>

type_synonym content = "string + json"

definition check_file :: "(json \<Rightarrow> string) \<Rightarrow> string \<Rightarrow> content \<Rightarrow> string list \<Rightarrow> exn + string list" where
  "check_file repr path c errors =
     (case c of
        Inl e \<Rightarrow> Inr (errors @ [msg_parse_error path e])
      | Inr data \<Rightarrow>
          (case classify path of
             ManifestFile \<Rightarrow> validate_manifest repr path data errors
           | DialoguesFile \<Rightarrow> Inr (validate_dialogues path data errors)
           | RecentFile \<Rightarrow> Inr (validate_recent path data errors)
           | GenericPublicationFile \<Rightarrow> Inr (validate_generic path data errors)
           | Unclassified \<Rightarrow> Inr errors))"

section \<open>The traversal\<close>

text \<open>
  A directory as \<^verbatim>\<open>os.walk\<close> lists it: its files with what \<^verbatim>\<open>read_json\<close> gives
  for each, and its subdirectories, both in the order of the listing.
\<close>

datatype dir = Dir "(string \<times> content) list" "(string \<times> dir) list"

definition skip_dirs :: "string set" where
  "skip_dirs = {''.git'', ''.github'', ''node_modules'', ''__pycache__''}"

text \<open>The loop over \<^verbatim>\<open>files\<close> of one directory \<open>root\<close>.\<close>

fun files_loop :: "(json \<Rightarrow> string) \<Rightarrow> string \<Rightarrow> (string \<times> content) list \<Rightarrow> string list \<Rightarrow> exn + string list" where
  "files_loop repr root [] errors = Inr errors"
| "files_loop repr root ((fname, c) # rest) errors =
     (if \<not> suffix ''.json'' fname then files_loop repr root rest errors
      else if fname = ''meta.json'' \<or> prefix ''package'' fname
      then files_loop repr root rest errors
      else
        (case check_file repr (os_path_join root fname) c errors of
           Inl e \<Rightarrow> Inl e
         | Inr errors' \<Rightarrow> files_loop repr root rest errors'))"

text \<open>
  The loop over \<^verbatim>\<open>os.walk(".", topdown=True)\<close>: the files of \<open>root\<close> first, then
  each subdirectory that the assignment to \<^verbatim>\<open>dirs[:]\<close> kept, in turn.
\<close>

function walk :: "(json \<Rightarrow> string) \<Rightarrow> string \<Rightarrow> dir \<Rightarrow> string list \<Rightarrow> exn + string list"
  and walk_dirs :: "(json \<Rightarrow> string) \<Rightarrow> string \<Rightarrow> (string \<times> dir) list \<Rightarrow> string list \<Rightarrow> exn + string list"
where
  "walk repr root (Dir files dirs) errors =
     (case files_loop repr root files errors of
        Inl e \<Rightarrow> Inl e
      | Inr errors' \<Rightarrow> walk_dirs repr root (filter (\<lambda>(d, sub). d \<notin> skip_dirs) dirs) errors')"
| "walk_dirs repr root [] errors = Inr errors"
| "walk_dirs repr root ((d, sub) # rest) errors =
     (case walk repr (os_path_join root d) sub errors of
        Inl e \<Rightarrow> Inl e
      | Inr errors' \<Rightarrow> walk_dirs repr root rest errors')"
  by pat_completeness auto

termination
proof -
  have kept: "size_list f (filter P xs) \<le> size_list f xs"
    for f :: "string \<times> dir \<Rightarrow> nat" and P xs
    by (induction xs) auto
  show ?thesis
    apply (relation "measure (\<lambda>x. case x of
        Inl (repr, root, d, errors) \<Rightarrow> size d
      | Inr (repr, root, ds, errors) \<Rightarrow> size_list (size_prod (\<lambda>x. 0) size) ds)")
      apply (auto simp: less_Suc_eq_le kept)
    done
qed

section \<open>The whole run\<close>

definition start_line :: string where
  "start_line = [CHR 0xF0, CHR 0x9F, CHR 0x94, CHR 0x8D] @ '' Repo-shaped validator starting...''"

definition success_line :: string where
  "success_line = [CHR 0xE2, CHR 0x9C, CHR 0x85] @ '' All validations passed.''"

definition count_line :: "string list \<Rightarrow> string" where
  "count_line errors = [CHR 0x0A] @ ''Found '' @ str_nat (length errors) @ '' issues:''"

text \<open>
  How the process ends: \<open>Exited out code\<close> after \<^verbatim>\<open>sys.exit(code)\<close>, or
  \<open>Uncaught out e\<close> when the exception \<open>e\<close> ends it; \<open>out\<close> is what was printed to
  standard output, one string for each \<^verbatim>\<open>print\<close>.
\<close>

datatype outcome = Exited "string list" int | Uncaught "string list" exn

definition finish :: "string list \<Rightarrow> outcome" where
  "finish errors =
     (if errors \<noteq> [] then Exited ([start_line, count_line errors] @ errors) 1
      else Exited [start_line, success_line] 0)"

definition main :: "(json \<Rightarrow> string) \<Rightarrow> dir \<Rightarrow> outcome" where
  "main repr tree =
     (case walk repr ''.'' tree [] of
        Inl e \<Rightarrow> Uncaught [start_line] e
      | Inr errors \<Rightarrow> finish errors)"

section \<open>The files of a tree\<close>

text \<open>
  Every file of a tree, with the names of the directories that lead to it from the top,
  outermost first.
\<close>

fun all_files :: "dir \<Rightarrow> (string list \<times> string \<times> content) list" where
  "all_files (Dir files dirs) =
     map (\<lambda>(fname, c). ([], fname, c)) files
     @ concat (map (\<lambda>(d, sub). map (\<lambda>(chain, fname, c). (d # chain, fname, c)) (all_files sub))
         dirs)"

text \<open>The names a file system gives: not empty, and without a slash.\<close>

definition valid_name :: "string \<Rightarrow> bool" where
  "valid_name n = (n \<noteq> [] \<and> CHR ''/'' \<notin> set n)"

fun names_valid :: "dir \<Rightarrow> bool" where
  "names_valid (Dir files dirs) =
     (list_all (\<lambda>(fname, c). valid_name fname) files
      \<and> list_all (\<lambda>(d, sub). valid_name d \<and> names_valid sub) dirs)"

section \<open>Facts about the helpers\<close>


lemma required_loop_dict:
  "required_loop path (JObject kvs) rs errors =
     Inr (errors @ map (msg_missing_manifest_field path) (filter (\<lambda>r. \<not> dict_contains kvs r) rs))"
  by (induction rs arbitrary: errors) auto

lemma first_key_value_dict:
  "first_key_value ks (JObject kvs) =
     (case find (dict_contains kvs) ks of None \<Rightarrow> JNull | Some k \<Rightarrow> dict_get kvs k)"
  by (induction ks) auto

lemma first_key_value_other: "\<not> isinstance_dict v \<Longrightarrow> first_key_value ks v = JNull"
  by (induction ks) (auto simp: isinstance_dict_def split: json.splits)

lemma no_identifier_not_required:
  "msg_manifest_no_identifier path \<noteq> msg_missing_manifest_field path r"
  by (simp add: msg_manifest_no_identifier_def msg_missing_manifest_field_def)


lemma mismatch_not_no_identifier:
  "msg_parent_mismatch path pd i \<noteq> msg_manifest_no_identifier path'"
  by (simp add: msg_parent_mismatch_def msg_manifest_no_identifier_def cross_mark_def
      warning_sign_def)

lemma classify_example_manifest: "classify ''./publications/X/manifest.json'' = ManifestFile"
  by (simp add: classify_def is_publication_manifest_def basename_def sublist_code(3))


text \<open>What the manifest branch appends for a document that is an object.\<close>

lemma validate_manifest_object:
  "validate_manifest repr path (JObject kvs) errors =
     Inr (errors
       @ map (msg_missing_manifest_field path)
           (filter (\<lambda>r. \<not> dict_contains kvs r) [''identifier'', ''title''])
       @ (let v = get_identifier_from (JObject kvs); parent_dir = basename (dirname path)
          in if v = JNull then [msg_manifest_no_identifier path]
             else if parent_dir \<noteq> py_str repr v
             then [msg_parent_mismatch path parent_dir (py_str repr v)]
             else []))"
  unfolding validate_manifest_def required_loop_dict parent_check_def
  by (simp add: Let_def)

section \<open>Manifests without an identifier\<close>

text \<open>
  Claim C4. For a file classified as a manifest whose document is an object that holds the
  key \<^verbatim>\<open>title\<close> and none of \<^verbatim>\<open>identifier\<close>, \<^verbatim>\<open>id\<close>,
  \<^verbatim>\<open>publication_identifier\<close>, the script appends exactly two diagnostics: the
  missing required field \<^verbatim>\<open>identifier\<close>, then the missing identifier.
\<close>

theorem manifest_title_only:
  assumes "classify path = ManifestFile"
    and "dict_contains kvs ''title''"
    and "\<forall>k \<in> set identifier_keys. \<not> dict_contains kvs k"
  shows "check_file repr path (Inr (JObject kvs)) errors =
           Inr (errors @ [msg_missing_manifest_field path ''identifier'',
                          msg_manifest_no_identifier path])"
proof -
  from assms(3) have absent: "\<not> dict_contains kvs ''identifier''"
    and none: "find (dict_contains kvs) identifier_keys = None"
    by (simp_all add: identifier_keys_def)
  have "get_identifier_from (JObject kvs) = JNull"
    by (simp add: get_identifier_from_def first_key_value_dict none)
  with assms(1,2) absent show ?thesis
    by (simp add: check_file_def validate_manifest_object)
qed

theorem manifest_title_only_witness:
  "classify ''./publications/X/manifest.json'' = ManifestFile
   \<and> dict_contains [(''title'', JString ''T'')] ''title''
   \<and> check_file (\<lambda>v. []) ''./publications/X/manifest.json''
         (Inr (JObject [(''title'', JString ''T'')])) []
       = Inr [msg_missing_manifest_field ''./publications/X/manifest.json'' ''identifier'',
              msg_manifest_no_identifier ''./publications/X/manifest.json'']"
  using manifest_title_only [of "''./publications/X/manifest.json''"
      "[(''title'', JString ''T'')]" "\<lambda>v. []" "[]"]
  by (simp add: classify_example_manifest dict_contains_def identifier_keys_def)

section \<open>Resolving the identifier of a manifest\<close>

text \<open>
  Claim C1, as the code has it. For a file classified as a manifest whose document is an
  object that holds at least one of the keys \<^verbatim>\<open>identifier\<close>, \<^verbatim>\<open>id\<close>,
  \<^verbatim>\<open>publication_identifier\<close>, the identifier is the value of the first of them that
  is present, and the diagnostic of the missing identifier is appended exactly when that
  value is \<^verbatim>\<open>null\<close>.
\<close>

theorem manifest_identifier_found:
  assumes "classify path = ManifestFile"
    and "find (dict_contains kvs) identifier_keys = Some k"
  shows "get_identifier_from (JObject kvs) = dict_get kvs k
         \<and> (\<exists>ds. check_file repr path (Inr (JObject kvs)) errors = Inr (errors @ ds)
                \<and> (msg_manifest_no_identifier path \<in> set ds \<longleftrightarrow> dict_get kvs k = JNull))"
proof -
  have v: "get_identifier_from (JObject kvs) = dict_get kvs k"
    by (simp add: get_identifier_from_def first_key_value_dict assms(2))
  have "check_file repr path (Inr (JObject kvs)) errors =
          validate_manifest repr path (JObject kvs) errors"
    by (simp add: check_file_def assms(1))
  then show ?thesis
    unfolding validate_manifest_object v
    by (auto simp: Let_def no_identifier_not_required mismatch_not_no_identifier [symmetric])
qed

theorem manifest_identifier_found_witness:
  "classify ''./publications/X/manifest.json'' = ManifestFile
   \<and> find (dict_contains [(''id'', JString ''X''), (''title'', JString ''T'')]) identifier_keys
       = Some ''id''
   \<and> get_identifier_from (JObject [(''id'', JString ''X''), (''title'', JString ''T'')])
       = JString ''X''
   \<and> (\<exists>ds. check_file (\<lambda>v. []) ''./publications/X/manifest.json''
               (Inr (JObject [(''id'', JString ''X''), (''title'', JString ''T'')])) [] = Inr ds
          \<and> msg_manifest_no_identifier ''./publications/X/manifest.json'' \<notin> set ds)"
  using manifest_identifier_found [of "''./publications/X/manifest.json''"
      "[(''id'', JString ''X''), (''title'', JString ''T'')]" "''id''" "\<lambda>v. []" "[]"]
  by (simp add: classify_example_manifest dict_contains_def dict_get_def identifier_keys_def)

text \<open>
  The claim as it was stated fails where the first key that is present holds
  \<^verbatim>\<open>null\<close>: the identifier is then \<^verbatim>\<open>None\<close>, and the missing identifier is
  reported although the key \<^verbatim>\<open>identifier\<close> is there.
\<close>

theorem manifest_null_identifier_reported:
  "classify ''./publications/X/manifest.json'' = ManifestFile
   \<and> dict_contains [(''identifier'', JNull), (''title'', JString ''T'')] ''identifier''
   \<and> check_file (\<lambda>v. []) ''./publications/X/manifest.json''
         (Inr (JObject [(''identifier'', JNull), (''title'', JString ''T'')])) []
       = Inr [msg_manifest_no_identifier ''./publications/X/manifest.json'']"
  by (simp add: classify_example_manifest check_file_def validate_manifest_object
      dict_contains_def dict_get_def get_identifier_from_def identifier_keys_def)

section \<open>Manifests that are no object\<close>

text \<open>
  The manifest branch raises exactly on the documents that are neither an object, an array
  nor a string.
\<close>

lemma manifest_raises_iff:
  assumes "classify path = ManifestFile"
  shows "check_file repr path (Inr data) errors = Inl TypeError \<longleftrightarrow>
           (case data of JObject kvs \<Rightarrow> False | JArray xs \<Rightarrow> False | JString s \<Rightarrow> False
            | _ \<Rightarrow> True)"
  by (cases data) (simp_all add: check_file_def assms validate_manifest_def)

text \<open>
  Claim C2 asks that a manifest of any JSON type ends in diagnostics and the traversal goes
  on. The manifest branch has no type check before \<^verbatim>\<open>r not in data\<close>: on a number
  the operator raises \<^verbatim>\<open>TypeError\<close>, nothing catches it, and the run ends there
  without a report.
\<close>

theorem manifest_number_raises:
  "classify ''./publications/X/manifest.json'' = ManifestFile
   \<and> check_file (\<lambda>v. []) ''./publications/X/manifest.json'' (Inr (JInt 5)) [] = Inl TypeError
   \<and> main (\<lambda>v. [])
         (Dir [] [(''publications'', Dir [] [(''X'', Dir [(''manifest.json'', Inr (JInt 5))] [])])])
       = Uncaught [start_line] TypeError"
  by (simp add: classify_example_manifest check_file_def validate_manifest_def main_def
      skip_dirs_def os_path_join_def suffix_to_prefix)

text \<open>
  Claim C10. For a file classified as a manifest whose document is a string, each of the
  two required fields is reported exactly when its name is no substring of the document,
  the missing identifier is always reported, and the loop over the files goes on with the
  next file.
\<close>

theorem manifest_string_document:
  assumes "classify (os_path_join root ''manifest.json'') = ManifestFile"
  shows "check_file repr (os_path_join root ''manifest.json'') (Inr (JString s)) errors =
           Inr (errors
             @ (if sublist ''identifier'' s then []
                else [msg_missing_manifest_field (os_path_join root ''manifest.json'') ''identifier''])
             @ (if sublist ''title'' s then []
                else [msg_missing_manifest_field (os_path_join root ''manifest.json'') ''title''])
             @ [msg_manifest_no_identifier (os_path_join root ''manifest.json'')])
         \<and> files_loop repr root ((''manifest.json'', Inr (JString s)) # rest) errors =
             files_loop repr root rest (errors
               @ (if sublist ''identifier'' s then []
                  else [msg_missing_manifest_field (os_path_join root ''manifest.json'') ''identifier''])
               @ (if sublist ''title'' s then []
                  else [msg_missing_manifest_field (os_path_join root ''manifest.json'') ''title''])
               @ [msg_manifest_no_identifier (os_path_join root ''manifest.json'')])"
proof -
  have none: "get_identifier_from (JString s) = JNull"
    by (simp add: get_identifier_from_def first_key_value_other isinstance_dict_def)
  have one: "check_file repr (os_path_join root ''manifest.json'') (Inr (JString s)) errors =
           Inr (errors
             @ (if sublist ''identifier'' s then []
                else [msg_missing_manifest_field (os_path_join root ''manifest.json'') ''identifier''])
             @ (if sublist ''title'' s then []
                else [msg_missing_manifest_field (os_path_join root ''manifest.json'') ''title''])
             @ [msg_manifest_no_identifier (os_path_join root ''manifest.json'')])"
    by (simp add: check_file_def assms validate_manifest_def parent_check_def none)
  have "suffix ''.json'' ''manifest.json''" "\<not> prefix ''package'' ''manifest.json''"
    by (simp_all add: suffix_to_prefix)
  then show ?thesis
    using one by simp
qed

theorem manifest_string_document_witness:
  "classify (os_path_join ''./publications/X'' ''manifest.json'') = ManifestFile
   \<and> check_file (\<lambda>v. []) ''./publications/X/manifest.json'' (Inr (JString ''my title'')) [] =
       Inr [msg_missing_manifest_field ''./publications/X/manifest.json'' ''identifier'',
            msg_manifest_no_identifier ''./publications/X/manifest.json'']"
  using manifest_string_document [of "''./publications/X''" "\<lambda>v. []" "''my title''" "[]" "[]"]
  by (simp add: os_path_join_def suffix_to_prefix classify_example_manifest sublist_code(3))

section \<open>The name of the parent directory\<close>






section \<open>Dialogues\<close>

lemma dialogue_fields_loop_appends:
  "dialogue_fields_loop path i kvs rfs errors =
     errors @ map (msg_missing_dialogue_field path i) (filter (\<lambda>rf. \<not> dict_contains kvs rf) rfs)"
  by (induction rfs arbitrary: errors) auto

lemma dialogues_loop_appends:
  "dialogues_loop path i items errors =
     errors @ concat (map (\<lambda>(j, item).
        case item of
          JObject kvs \<Rightarrow>
            map (msg_missing_dialogue_field path j)
              (filter (\<lambda>rf. \<not> dict_contains kvs rf) dialogue_fields)
        | _ \<Rightarrow> [msg_dialogue_not_object path j]) (enumerate i items))"
proof (induction items arbitrary: i errors)
  case Nil
  show ?case by simp
next
  case (Cons item items)
  show ?case
    by (cases item) (simp_all add: Cons.IH dialogue_fields_loop_appends)
qed

lemma classify_example_dialogues:
  "classify ''./publications/X/segments/S/dialogues.json'' = DialoguesFile"
  by (simp add: classify_def is_publication_manifest_def is_dialogues_def basename_def
      sublist_code(3))

text \<open>
  Claim C7. For a file classified as a dialogues file: when the document is an array, each
  element that is no object gets exactly one diagnostic, with the path and the index of
  the element counted from 0, and each element that is an object gets one diagnostic, with
  path, index and field, for each of \<^verbatim>\<open>character_identifier\<close>, \<^verbatim>\<open>ordinal\<close>,
  \<^verbatim>\<open>text\<close> that it does not hold; when the document is no array, one diagnostic is
  appended and no element is looked at.
\<close>

theorem dialogues_diagnostics:
  assumes "classify path = DialoguesFile"
  shows "check_file repr path (Inr (JArray items)) errors =
           Inr (errors @ concat (map (\<lambda>(i, item).
              case item of
                JObject kvs \<Rightarrow>
                  map (msg_missing_dialogue_field path i)
                    (filter (\<lambda>rf. \<not> dict_contains kvs rf)
                      [''character_identifier'', ''ordinal'', ''text''])
              | _ \<Rightarrow> [msg_dialogue_not_object path i]) (enumerate 0 items)))
         \<and> (\<not> isinstance_list data \<longrightarrow>
              check_file repr path (Inr data) errors = Inr (errors @ [msg_dialogues_not_array path]))"
proof -
  have "\<not> isinstance_list data \<Longrightarrow>
      validate_dialogues path data errors = errors @ [msg_dialogues_not_array path]"
    by (cases data) (simp_all add: validate_dialogues_def isinstance_list_def)
  then show ?thesis
    using dialogues_loop_appends [of path 0 items errors, unfolded dialogue_fields_def]
    by (simp add: check_file_def assms validate_dialogues_def)
qed

theorem dialogues_diagnostics_witness:
  "classify ''./publications/X/segments/S/dialogues.json'' = DialoguesFile
   \<and> check_file (\<lambda>v. []) ''./publications/X/segments/S/dialogues.json''
         (Inr (JArray [JObject [(''character_identifier'', JString ''a''), (''ordinal'', JInt 1)],
                       JString ''line'',
                       JObject [(''text'', JString ''t'')]])) []
       = Inr [msg_missing_dialogue_field ''./publications/X/segments/S/dialogues.json'' 0 ''text'',
              msg_dialogue_not_object ''./publications/X/segments/S/dialogues.json'' 1,
              msg_missing_dialogue_field ''./publications/X/segments/S/dialogues.json'' 2
                ''character_identifier'',
              msg_missing_dialogue_field ''./publications/X/segments/S/dialogues.json'' 2
                ''ordinal'']
   \<and> \<not> isinstance_list (JObject [])
   \<and> check_file (\<lambda>v. []) ''./publications/X/segments/S/dialogues.json'' (Inr (JObject [])) []
       = Inr [msg_dialogues_not_array ''./publications/X/segments/S/dialogues.json'']"
  using dialogues_diagnostics [of "''./publications/X/segments/S/dialogues.json''" "\<lambda>v. []"
      "[JObject [(''character_identifier'', JString ''a''), (''ordinal'', JInt 1)],
        JString ''line'', JObject [(''text'', JString ''t'')]]" "[]" "JObject []"]
  by (simp add: classify_example_dialogues dict_contains_def isinstance_list_def
      eval_nat_numeral)

section \<open>The list of recent publications\<close>

lemma recent_loop_appends:
  "recent_loop path i items errors =
     errors @ concat (map (\<lambda>(j, item).
        case item of
          JObject kvs \<Rightarrow>
            (if get_identifier_from item = JNull then [msg_recent_no_identifier path j] else [])
            @ (if get_author_from item = JNull then [msg_recent_no_author path j] else [])
        | _ \<Rightarrow> [msg_recent_not_object path j]) (enumerate i items))"
proof (induction items arbitrary: i errors)
  case Nil
  show ?case by simp
next
  case (Cons item items)
  show ?case
    by (cases item) (simp_all add: Cons.IH isinstance_dict_def recent_item_def)
qed

lemma classify_example_recent: "classify ''./publications/recent.json'' = RecentFile"
  by (simp add: classify_def is_publication_manifest_def is_dialogues_def is_recent_def
      basename_def normpath_def split_sep_def os_path_join_def suffix_to_prefix)

text \<open>
  Claim C6, as the code has it. For a file classified as the list of recent publications
  whose document is an array, each element that is an object is checked for an identifier
  (keys \<^verbatim>\<open>identifier\<close>, \<^verbatim>\<open>id\<close>, \<^verbatim>\<open>publication_identifier\<close>) and for an author
  (keys \<^verbatim>\<open>author\<close>, \<^verbatim>\<open>author_name\<close>, \<^verbatim>\<open>author_names\<close>), each on its own: one
  is found when some key of its list is present and the value of the first that is present
  is not \<^verbatim>\<open>null\<close> (any other value counts, a false one too). An element that is no
  object gets one diagnostic and no other check.
\<close>

theorem recent_diagnostics:
  assumes "classify path = RecentFile"
  shows "check_file repr path (Inr (JArray items)) errors =
           Inr (errors @ concat (map (\<lambda>(i, item).
              case item of
                JObject kvs \<Rightarrow>
                  (if (case find (dict_contains kvs)
                              [''identifier'', ''id'', ''publication_identifier''] of
                         None \<Rightarrow> False | Some k \<Rightarrow> dict_get kvs k \<noteq> JNull)
                   then [] else [msg_recent_no_identifier path i])
                  @ (if (case find (dict_contains kvs)
                                [''author'', ''author_name'', ''author_names''] of
                           None \<Rightarrow> False | Some k \<Rightarrow> dict_get kvs k \<noteq> JNull)
                     then [] else [msg_recent_no_author path i])
              | _ \<Rightarrow> [msg_recent_not_object path i]) (enumerate 0 items)))"
proof -
  have same: "(\<lambda>(j, item).
        case item of
          JObject kvs \<Rightarrow>
            (if get_identifier_from item = JNull then [msg_recent_no_identifier path j] else [])
            @ (if get_author_from item = JNull then [msg_recent_no_author path j] else [])
        | _ \<Rightarrow> [msg_recent_not_object path j])
     = (\<lambda>(i, item).
              case item of
                JObject kvs \<Rightarrow>
                  (if (case find (dict_contains kvs)
                              [''identifier'', ''id'', ''publication_identifier''] of
                         None \<Rightarrow> False | Some k \<Rightarrow> dict_get kvs k \<noteq> JNull)
                   then [] else [msg_recent_no_identifier path i])
                  @ (if (case find (dict_contains kvs)
                                [''author'', ''author_name'', ''author_names''] of
                           None \<Rightarrow> False | Some k \<Rightarrow> dict_get kvs k \<noteq> JNull)
                     then [] else [msg_recent_no_author path i])
              | _ \<Rightarrow> [msg_recent_not_object path i])"
    by (intro ext)
      (auto simp: get_identifier_from_def get_author_from_def first_key_value_dict
        identifier_keys_def author_keys_def split: json.splits option.splits)
  show ?thesis
    using recent_loop_appends [of path 0 items errors]
    by (simp add: check_file_def assms validate_recent_def same)
qed

theorem recent_diagnostics_witness:
  "classify ''./publications/recent.json'' = RecentFile
   \<and> check_file (\<lambda>v. []) ''./publications/recent.json''
         (Inr (JArray [JObject [(''id'', JString ''x'')],
                       JObject [],
                       JInt 3,
                       JObject [(''id'', JString ''''), (''author_names'', JArray [])]])) []
       = Inr [msg_recent_no_author ''./publications/recent.json'' 0,
              msg_recent_no_identifier ''./publications/recent.json'' 1,
              msg_recent_no_author ''./publications/recent.json'' 1,
              msg_recent_not_object ''./publications/recent.json'' 2]"
  using recent_diagnostics [of "''./publications/recent.json''" "\<lambda>v. []"
      "[JObject [(''id'', JString ''x'')], JObject [], JInt 3,
        JObject [(''id'', JString ''''), (''author_names'', JArray [])]]" "[]"]
  by (simp add: classify_example_recent dict_contains_def dict_get_def eval_nat_numeral)

text \<open>
  The claim as it was stated fails where a key is present with the value \<^verbatim>\<open>null\<close>:
  the element holds \<^verbatim>\<open>id\<close>, and the missing identifier is reported all the same.
\<close>

theorem recent_null_identifier_reported:
  "classify ''./publications/recent.json'' = RecentFile
   \<and> dict_contains [(''id'', JNull), (''author'', JString ''a'')] ''id''
   \<and> check_file (\<lambda>v. []) ''./publications/recent.json''
         (Inr (JArray [JObject [(''id'', JNull), (''author'', JString ''a'')]])) []
       = Inr [msg_recent_no_identifier ''./publications/recent.json'' 0]"
  by (simp add: classify_example_recent check_file_def validate_recent_def recent_loop_appends
      dict_contains_def dict_get_def get_identifier_from_def get_author_from_def
      identifier_keys_def author_keys_def)

section \<open>The end of the run\<close>

text \<open>
  When the traversal comes to its end, the exit code and the report depend on the list of
  diagnostics alone: code 0 and the line of success for the empty list, code 1 and the
  count followed by every diagnostic in the order of the list otherwise.
\<close>

lemma finish_exit_code:
  "\<exists>out code. finish errors = Exited out code
     \<and> (code = 0 \<longleftrightarrow> errors = []) \<and> (code = 1 \<longleftrightarrow> errors \<noteq> [])
     \<and> out = (if errors = [] then [start_line, success_line]
              else [start_line, count_line errors] @ errors)"
  by (simp add: finish_def)

lemma main_completed: "walk repr ''.'' tree [] = Inr errors \<Longrightarrow> main repr tree = finish errors"
  by (simp add: main_def)

text \<open>
  Claim C9 asks, for every tree, for exit code 0 when no diagnostic was collected and for
  code 1 with the whole report otherwise. A tree whose only file is the manifest \<^verbatim>\<open>5\<close>
  collects no diagnostic and still does not reach \<^verbatim>\<open>sys.exit(0)\<close>; with a file that
  does not parse listed before that manifest, one diagnostic is collected and never
  printed. Both runs end in the \<^verbatim>\<open>TypeError\<close> of the manifest branch.
\<close>

theorem run_without_report:
  "main (\<lambda>v. [])
     (Dir [] [(''publications'', Dir [] [(''X'', Dir [(''manifest.json'', Inr (JInt 5))] [])])])
     = Uncaught [start_line] TypeError
   \<and> files_loop (\<lambda>v. []) ''./publications/X'' [(''broken.json'', Inl ''bad'')] []
       = Inr [msg_parse_error ''./publications/X/broken.json'' ''bad'']
   \<and> main (\<lambda>v. [])
       (Dir [] [(''publications'', Dir []
          [(''X'', Dir [(''broken.json'', Inl ''bad''), (''manifest.json'', Inr (JInt 5))] [])])])
       = Uncaught [start_line] TypeError"
  by (simp add: classify_example_manifest check_file_def validate_manifest_def main_def
      skip_dirs_def os_path_join_def suffix_to_prefix)

section \<open>Splitting and joining paths\<close>

lemma split_from_no_sep: "CHR ''/'' \<notin> set b \<Longrightarrow> split_from cur b = [cur @ b]"
  by (induction b arbitrary: cur) auto

lemma split_from_append_sep:
  "split_from cur (a @ CHR ''/'' # b) = split_from cur a @ split_from [] b"
  by (induction a arbitrary: cur) auto







section \<open>The rule of the recent file\<close>




section \<open>Every check appends\<close>

lemma required_loop_appends:
  "required_loop path data rs errors =
     (case required_loop path data rs [] of Inl e \<Rightarrow> Inl e | Inr ds \<Rightarrow> Inr (errors @ ds))"
proof (induction rs arbitrary: errors)
  case Nil
  show ?case by simp
next
  case (Cons r rs)
  show ?case
  proof (cases "py_in r data")
    case (Inl e)
    then show ?thesis by simp
  next
    case (Inr present)
    have a: "required_loop path data rs (errors @ [msg_missing_manifest_field path r]) =
        (case required_loop path data rs [] of Inl e \<Rightarrow> Inl e
         | Inr ds \<Rightarrow> Inr ((errors @ [msg_missing_manifest_field path r]) @ ds))"
      by (rule Cons.IH)
    have b: "required_loop path data rs [msg_missing_manifest_field path r] =
        (case required_loop path data rs [] of Inl e \<Rightarrow> Inl e
         | Inr ds \<Rightarrow> Inr ([msg_missing_manifest_field path r] @ ds))"
      by (rule Cons.IH)
    have c: "required_loop path data rs errors =
        (case required_loop path data rs [] of Inl e \<Rightarrow> Inl e | Inr ds \<Rightarrow> Inr (errors @ ds))"
      by (rule Cons.IH)
    show ?thesis
    proof (cases present)
      case True
      with Inr c show ?thesis by simp
    next
      case False
      with Inr a b show ?thesis by (simp split: sum.splits)
    qed
  qed
qed

lemma parent_check_appends:
  "parent_check repr path data errors = errors @ parent_check repr path data []"
  by (simp add: parent_check_def Let_def)

lemma check_file_appends:
  "check_file repr path c errors =
     (case check_file repr path c [] of Inl e \<Rightarrow> Inl e | Inr ds \<Rightarrow> Inr (errors @ ds))"
proof (cases c)
  case (Inl e)
  then show ?thesis by (simp add: check_file_def)
next
  case (Inr data)
  have manifest: "validate_manifest repr path data errors =
      (case validate_manifest repr path data [] of Inl e \<Rightarrow> Inl e | Inr ds \<Rightarrow> Inr (errors @ ds))"
  proof (cases "required_loop path data [''identifier'', ''title''] []")
    case (Inl e)
    then show ?thesis
      unfolding validate_manifest_def
      by (subst required_loop_appends) (simp del: required_loop.simps)
  next
    case (Inr ds)
    then show ?thesis
      unfolding validate_manifest_def
      by (subst required_loop_appends)
        (simp del: required_loop.simps add: parent_check_appends [of repr path data "errors @ ds"]
          parent_check_appends [of repr path data ds])
  qed
  have dialogues: "validate_dialogues path data errors = errors @ validate_dialogues path data []"
    by (simp add: validate_dialogues_def dialogues_loop_appends [of path 0 _ errors]
        dialogues_loop_appends [of path 0 _ "[]"] split: json.splits)
  have recent: "validate_recent path data errors = errors @ validate_recent path data []"
    by (simp add: validate_recent_def recent_loop_appends [of path 0 _ errors]
        recent_loop_appends [of path 0 _ "[]"] split: json.splits)
  have generic: "validate_generic path data errors = errors @ validate_generic path data []"
    by (simp add: validate_generic_def)
  show ?thesis
    unfolding Inr check_file_def
    using manifest dialogues recent generic
    by (simp split: classification.splits)
qed

section \<open>Where the diagnostics of a run come from\<close>

lemma files_loop_sources:
  "files_loop repr root files errors = Inr errors' \<Longrightarrow> d \<in> set errors' \<Longrightarrow>
   d \<in> set errors \<or>
   (\<exists>fname c ds. (fname, c) \<in> set files
      \<and> check_file repr (os_path_join root fname) c [] = Inr ds \<and> d \<in> set ds)"
proof (induction files arbitrary: errors)
  case Nil
  then show ?case by simp
next
  case (Cons entry files)
  obtain fname c where entry: "entry = (fname, c)"
    by (cases entry)
  show ?case
  proof (cases "\<not> suffix ''.json'' fname \<or> fname = ''meta.json'' \<or> prefix ''package'' fname")
    case True
    with Cons.prems entry have "files_loop repr root files errors = Inr errors'"
      by (auto simp: suffix_to_prefix split: if_splits)
    from Cons.IH [OF this Cons.prems(2)] show ?thesis
      by auto
  next
    case False
    with Cons.prems(1) entry obtain mid where
      mid: "check_file repr (os_path_join root fname) c errors = Inr mid"
      and rest: "files_loop repr root files mid = Inr errors'"
      by (auto split: sum.splits)
    from mid obtain ds where ds: "check_file repr (os_path_join root fname) c [] = Inr ds"
      and mid_eq: "mid = errors @ ds"
      using check_file_appends [of repr "os_path_join root fname" c errors]
      by (auto split: sum.splits)
    from Cons.IH [OF rest Cons.prems(2)] show ?thesis
    proof
      assume "d \<in> set mid"
      with mid_eq ds entry show ?thesis
        by auto
    next
      assume "\<exists>fname c ds. (fname, c) \<in> set files
          \<and> check_file repr (os_path_join root fname) c [] = Inr ds \<and> d \<in> set ds"
      then show ?thesis
        by auto
    qed
  qed
qed

lemma walk_sources:
  "walk repr root tree errors = Inr errors' \<Longrightarrow> d \<in> set errors' \<Longrightarrow>
   d \<in> set errors \<or>
   (\<exists>chain fname c ds. (chain, fname, c) \<in> set (all_files tree)
      \<and> set chain \<inter> skip_dirs = {}
      \<and> check_file repr (foldl os_path_join root (chain @ [fname])) c [] = Inr ds
      \<and> d \<in> set ds)"
  and walk_dirs_sources:
  "walk_dirs repr root dirs errors = Inr errors' \<Longrightarrow> d \<in> set errors' \<Longrightarrow>
   d \<in> set errors \<or>
   (\<exists>n sub chain fname c ds. (n, sub) \<in> set dirs
      \<and> (chain, fname, c) \<in> set (all_files sub)
      \<and> set chain \<inter> skip_dirs = {}
      \<and> check_file repr (foldl os_path_join (os_path_join root n) (chain @ [fname])) c [] = Inr ds
      \<and> d \<in> set ds)"
proof (induction repr root tree errors and repr root dirs errors
    arbitrary: errors' and errors' rule: walk_walk_dirs.induct)
  case (1 repr root files dirs errors)
  from "1.prems"(1) obtain mid where
    mid: "files_loop repr root files errors = Inr mid"
    and below: "walk_dirs repr root (filter (\<lambda>(d, sub). d \<notin> skip_dirs) dirs) mid = Inr errors'"
    by (auto split: sum.splits)
  from "1.IH" [OF mid below "1.prems"(2)] show ?case
  proof
    assume "d \<in> set mid"
    from files_loop_sources [OF mid this] show ?thesis
    proof
      assume "d \<in> set errors"
      then show ?thesis by simp
    next
      assume "\<exists>fname c ds. (fname, c) \<in> set files
          \<and> check_file repr (os_path_join root fname) c [] = Inr ds \<and> d \<in> set ds"
      then obtain fname c ds where "(fname, c) \<in> set files"
        and "check_file repr (os_path_join root fname) c [] = Inr ds" and "d \<in> set ds"
        by blast
      then have "([], fname, c) \<in> set (all_files (Dir files dirs))
          \<and> set [] \<inter> skip_dirs = {}
          \<and> check_file repr (foldl os_path_join root ([] @ [fname])) c [] = Inr ds
          \<and> d \<in> set ds"
        by force
      then show ?thesis by blast
    qed
  next
    assume "\<exists>n sub chain fname c ds.
        (n, sub) \<in> set (filter (\<lambda>(d, sub). d \<notin> skip_dirs) dirs)
        \<and> (chain, fname, c) \<in> set (all_files sub)
        \<and> set chain \<inter> skip_dirs = {}
        \<and> check_file repr (foldl os_path_join (os_path_join root n) (chain @ [fname])) c [] = Inr ds
        \<and> d \<in> set ds"
    then obtain n sub chain fname c ds where
      kept: "(n, sub) \<in> set (filter (\<lambda>(d, sub). d \<notin> skip_dirs) dirs)"
      and inside: "(chain, fname, c) \<in> set (all_files sub)"
      and clean: "set chain \<inter> skip_dirs = {}"
      and ds: "check_file repr (foldl os_path_join (os_path_join root n) (chain @ [fname])) c [] = Inr ds"
      and d: "d \<in> set ds"
      by blast
    from kept have "(n, sub) \<in> set dirs" and "n \<notin> skip_dirs"
      by auto
    with inside clean ds have "(n # chain, fname, c) \<in> set (all_files (Dir files dirs))
        \<and> set (n # chain) \<inter> skip_dirs = {}
        \<and> check_file repr (foldl os_path_join root ((n # chain) @ [fname])) c [] = Inr ds"
      by force
    with d show ?thesis by blast
  qed
next
  case (2 repr root errors)
  then show ?case by simp
next
  case (3 repr root n sub rest errors)
  from "3.prems"(1) obtain mid where
    mid: "walk repr (os_path_join root n) sub errors = Inr mid"
    and others: "walk_dirs repr root rest mid = Inr errors'"
    by (auto split: sum.splits)
  from "3.IH"(2) [OF mid others "3.prems"(2)] show ?case
  proof
    assume "d \<in> set mid"
    from "3.IH"(1) [OF mid this] show ?thesis
    proof
      assume "d \<in> set errors"
      then show ?thesis by simp
    next
      assume "\<exists>chain fname c ds. (chain, fname, c) \<in> set (all_files sub)
          \<and> set chain \<inter> skip_dirs = {}
          \<and> check_file repr (foldl os_path_join (os_path_join root n) (chain @ [fname])) c [] = Inr ds
          \<and> d \<in> set ds"
      then obtain chain fname c ds where "(n, sub) \<in> set ((n, sub) # rest)
          \<and> (chain, fname, c) \<in> set (all_files sub)
          \<and> set chain \<inter> skip_dirs = {}
          \<and> check_file repr (foldl os_path_join (os_path_join root n) (chain @ [fname])) c [] = Inr ds
          \<and> d \<in> set ds"
        by auto
      then show ?thesis by blast
    qed
  next
    assume "\<exists>n sub chain fname c ds. (n, sub) \<in> set rest
        \<and> (chain, fname, c) \<in> set (all_files sub)
        \<and> set chain \<inter> skip_dirs = {}
        \<and> check_file repr (foldl os_path_join (os_path_join root n) (chain @ [fname])) c [] = Inr ds
        \<and> d \<in> set ds"
    then obtain m sub' chain fname c ds where "(m, sub') \<in> set rest"
      and "(chain, fname, c) \<in> set (all_files sub')
        \<and> set chain \<inter> skip_dirs = {}
        \<and> check_file repr (foldl os_path_join (os_path_join root m) (chain @ [fname])) c [] = Inr ds
        \<and> d \<in> set ds"
      by blast
    then have "(m, sub') \<in> set ((n, sub) # rest)
        \<and> (chain, fname, c) \<in> set (all_files sub')
        \<and> set chain \<inter> skip_dirs = {}
        \<and> check_file repr (foldl os_path_join (os_path_join root m) (chain @ [fname])) c [] = Inr ds
        \<and> d \<in> set ds"
      by simp
    then show ?thesis by blast
  qed
qed

section \<open>The paths the traversal builds\<close>

lemma os_path_join_valid:
  assumes "root \<noteq> []" and "last root \<noteq> CHR ''/''" and "valid_name n"
  shows "os_path_join root n = root @ CHR ''/'' # n"
proof -
  from assms(3) have "\<not> prefix ''/'' n"
    by (cases n) (auto simp: valid_name_def)
  moreover from assms(1,2) have "\<not> suffix ''/'' root"
    by (auto simp: suffix_def)
  ultimately show ?thesis
    using assms(1) by (simp add: os_path_join_def)
qed

lemma split_sep_joined:
  "root \<noteq> [] \<Longrightarrow> last root \<noteq> CHR ''/'' \<Longrightarrow> list_all valid_name ns \<Longrightarrow>
   split_sep (foldl os_path_join root ns) = split_sep root @ ns"
proof (induction ns arbitrary: root)
  case Nil
  show ?case by simp
next
  case (Cons n ns)
  then have n: "valid_name n" and ns: "list_all valid_name ns"
    by simp_all
  have joined: "os_path_join root n = root @ CHR ''/'' # n"
    using Cons.prems(1,2) n by (rule os_path_join_valid)
  from n have "n \<noteq> []" and "last n \<in> set n" and "CHR ''/'' \<notin> set n"
    by (simp_all add: valid_name_def)
  then have "last n \<noteq> CHR ''/''"
    by metis
  with \<open>n \<noteq> []\<close> have "os_path_join root n \<noteq> []"
    and "last (os_path_join root n) \<noteq> CHR ''/''"
    unfolding joined by simp_all
  from Cons.IH [OF this ns] have
    "split_sep (foldl os_path_join root (n # ns)) = split_sep (os_path_join root n) @ ns"
    by simp
  also from n have "split_sep (os_path_join root n) = split_sep root @ [n]"
    unfolding joined split_sep_def split_from_append_sep
    by (simp add: split_from_no_sep valid_name_def)
  finally show ?case by simp
qed

lemma all_files_valid:
  "names_valid tree \<Longrightarrow> (chain, fname, c) \<in> set (all_files tree) \<Longrightarrow>
   list_all valid_name chain \<and> valid_name fname"
proof (induction tree arbitrary: chain rule: all_files.induct)
  case (1 files dirs)
  from "1.prems"(2) consider (here) "chain = []" "(fname, c) \<in> set files"
    | (below) d sub rest where "(d, sub) \<in> set dirs" "chain = d # rest"
        "(rest, fname, c) \<in> set (all_files sub)"
    by auto
  then show ?case
  proof cases
    case here
    with "1.prems"(1) show ?thesis
      by (auto simp: list_all_iff)
  next
    case below
    from "1.prems"(1) below(1) have "valid_name d" and "names_valid sub"
      by (auto simp: list_all_iff)
    with "1.IH" [OF below(1) refl _ below(3)] below(2) show ?thesis
      by simp
  qed
qed

section \<open>Ignored directories\<close>

text \<open>
  Claim C8. Every diagnostic that a run collects was appended by the check of a file of
  the tree whose path has no directory segment named \<^verbatim>\<open>.git\<close>, \<^verbatim>\<open>.github\<close>,
  \<^verbatim>\<open>node_modules\<close> or \<^verbatim>\<open>__pycache__\<close>, at any depth: the segments of the path are
  \<^verbatim>\<open>.\<close>, then the directories that lead to the file, then its name, and none of these
  directories is in the ignore set. So no diagnostic is produced for a path inside an
  ignored subtree.
\<close>

theorem ignored_directories_silent:
  assumes "names_valid tree"
    and "walk repr ''.'' tree [] = Inr errors"
    and "d \<in> set errors"
  shows "\<exists>chain fname c ds.
           (chain, fname, c) \<in> set (all_files tree)
           \<and> check_file repr (foldl os_path_join ''.'' (chain @ [fname])) c [] = Inr ds
           \<and> d \<in> set ds
           \<and> split_sep (foldl os_path_join ''.'' (chain @ [fname])) = ''.'' # chain @ [fname]
           \<and> set chain \<inter> skip_dirs = {}"
proof -
  from walk_sources [OF assms(2,3)] obtain chain fname c ds where
    inside: "(chain, fname, c) \<in> set (all_files tree)"
    and clean: "set chain \<inter> skip_dirs = {}"
    and ds: "check_file repr (foldl os_path_join ''.'' (chain @ [fname])) c [] = Inr ds"
    and d: "d \<in> set ds"
    by auto
  from all_files_valid [OF assms(1) inside] have "list_all valid_name (chain @ [fname])"
    by simp
  then have "split_sep (foldl os_path_join ''.'' (chain @ [fname])) = split_sep ''.'' @ chain @ [fname]"
    by (intro split_sep_joined) simp_all
  then have "split_sep (foldl os_path_join ''.'' (chain @ [fname])) = ''.'' # chain @ [fname]"
    by (simp add: split_sep_def)
  with inside clean ds d show ?thesis
    by blast
qed

theorem ignored_directories_silent_witness:
  "names_valid
     (Dir [] [(''.git'', Dir [(''x.json'', Inl ''bad'')] []),
              (''docs'', Dir [(''a.json'', Inl ''bad'')]
                 [(''node_modules'', Dir [(''b.json'', Inl ''bad'')] [])])])
   \<and> walk (\<lambda>v. []) ''.''
       (Dir [] [(''.git'', Dir [(''x.json'', Inl ''bad'')] []),
                (''docs'', Dir [(''a.json'', Inl ''bad'')]
                   [(''node_modules'', Dir [(''b.json'', Inl ''bad'')] [])])]) []
       = Inr [msg_parse_error ''./docs/a.json'' ''bad'']
   \<and> (\<exists>chain fname c ds.
         (chain, fname, c) \<in> set (all_files
            (Dir [] [(''.git'', Dir [(''x.json'', Inl ''bad'')] []),
                     (''docs'', Dir [(''a.json'', Inl ''bad'')]
                        [(''node_modules'', Dir [(''b.json'', Inl ''bad'')] [])])]))
         \<and> check_file (\<lambda>v. []) (foldl os_path_join ''.'' (chain @ [fname])) c [] = Inr ds
         \<and> msg_parse_error ''./docs/a.json'' ''bad'' \<in> set ds
         \<and> split_sep (foldl os_path_join ''.'' (chain @ [fname])) = ''.'' # chain @ [fname]
         \<and> set chain \<inter> skip_dirs = {})"
proof -
  have names: "names_valid
     (Dir [] [(''.git'', Dir [(''x.json'', Inl ''bad'')] []),
              (''docs'', Dir [(''a.json'', Inl ''bad'')]
                 [(''node_modules'', Dir [(''b.json'', Inl ''bad'')] [])])])"
    by (simp add: valid_name_def)
  have run: "walk (\<lambda>v. []) ''.''
       (Dir [] [(''.git'', Dir [(''x.json'', Inl ''bad'')] []),
                (''docs'', Dir [(''a.json'', Inl ''bad'')]
                   [(''node_modules'', Dir [(''b.json'', Inl ''bad'')] [])])]) []
       = Inr [msg_parse_error ''./docs/a.json'' ''bad'']"
    by (simp add: skip_dirs_def os_path_join_def suffix_to_prefix check_file_def)
  from ignored_directories_silent [OF names run, of "msg_parse_error ''./docs/a.json'' ''bad''"]
    names run show ?thesis
    by simp
qed

end
